theory Spec2Isabelle
  imports Main "HOL-Library.AList" "HOL-Library.Sublist"
begin

section \<open>Python string operations used by the fetcher\<close>

text \<open>
  Strings are byte lists. The operations below are the ASCII behaviour of the Python
  built-ins the source calls: \<^verbatim>\<open>str.lower\<close>, \<^verbatim>\<open>a in s\<close>, \<^verbatim>\<open>str.startswith\<close>,
  \<^verbatim>\<open>str.split(sep)\<close> with a one-character separator, and \<^verbatim>\<open>str.strip()\<close>.
\<close>

definition lower_char :: "char \<Rightarrow> char" where
  "lower_char c =
     (case map_of (zip ''ABCDEFGHIJKLMNOPQRSTUVWXYZ'' ''abcdefghijklmnopqrstuvwxyz'') c of
        Some l \<Rightarrow> l
      | None \<Rightarrow> c)"

definition lower :: "string \<Rightarrow> string" where
  "lower s = map lower_char s"

definition startswith :: "string \<Rightarrow> string \<Rightarrow> bool" where
  "startswith s p = (take (length p) s = p)"

text \<open>\<^verbatim>\<open>a in s\<close>: \<open>a\<close> occurs in \<open>s\<close> as a contiguous substring.\<close>

fun py_in :: "string \<Rightarrow> string \<Rightarrow> bool" where
  "py_in a [] = (a = [])"
| "py_in a (c # s) = (startswith (c # s) a \<or> py_in a s)"

text \<open>\<^verbatim>\<open>s.split(c)\<close>: the pieces of \<open>s\<close> between the occurrences of \<open>c\<close>; never empty.\<close>

fun py_split :: "char \<Rightarrow> string \<Rightarrow> string list" where
  "py_split c [] = [[]]"
| "py_split c (x # xs) =
     (if x = c then [] # py_split c xs
      else (case py_split c xs of [] \<Rightarrow> [[x]] | y # ys \<Rightarrow> (x # y) # ys))"

definition is_space :: "char \<Rightarrow> bool" where
  "is_space c = (let n = (of_char c :: nat) in n = 32 \<or> (9 \<le> n \<and> n \<le> 13) \<or> (28 \<le> n \<and> n \<le> 31))"

definition strip :: "string \<Rightarrow> string" where
  "strip s = rev (dropWhile is_space (rev (dropWhile is_space s)))"

section \<open>Data model\<close>

text \<open>
  A release as the API returns it: the JSON object's keys \<^verbatim>\<open>tag_name\<close>, \<^verbatim>\<open>name\<close>,
  \<^verbatim>\<open>body\<close>, \<^verbatim>\<open>draft\<close>, \<^verbatim>\<open>prerelease\<close>. \<^verbatim>\<open>name\<close> and \<^verbatim>\<open>body\<close> may be \<^verbatim>\<open>null\<close>.
\<close>

record release =
  tag_name :: string
  name :: "string option"
  body :: "string option"
  draft :: bool
  prerelease :: bool

text \<open>The class \<^verbatim>\<open>ReleaseInfo\<close>.\<close>

record ReleaseInfo =
  tag :: string
  body :: string
  is_prerelease :: bool

text \<open>
  The values of the dictionary \<^verbatim>\<open>artifacts_releases\<close>: a Python list of \<^verbatim>\<open>ReleaseInfo\<close>
  (history mode) or a 2-tuple of optional \<^verbatim>\<open>ReleaseInfo\<close> (latest-only mode). The
  dictionary itself is an association list in insertion order; \<^verbatim>\<open>d[k] = v\<close> is
  \<^const>\<open>AList.update\<close> (replace in place, or append a new key at the end).
\<close>

datatype slot = History "ReleaseInfo list" | Latest "ReleaseInfo option" "ReleaseInfo option"

type_synonym accumulator = "(string \<times> slot) list"

datatype exn =
  RequestException | KeyError | ValueError | AttributeError | OSError | OverflowError

definition keys :: "accumulator \<Rightarrow> string set" where
  "keys acc = fst ` set acc"

definition stable_of :: "accumulator \<Rightarrow> string \<Rightarrow> ReleaseInfo option" where
  "stable_of acc k = (case map_of acc k of Some (Latest s p) \<Rightarrow> s | _ \<Rightarrow> None)"

definition pre_of :: "accumulator \<Rightarrow> string \<Rightarrow> ReleaseInfo option" where
  "pre_of acc k = (case map_of acc k of Some (Latest s p) \<Rightarrow> p | _ \<Rightarrow> None)"

section \<open>\<^verbatim>\<open>get_latest_releases\<close>: classification and storage of one release\<close>

text \<open>\<^verbatim>\<open>release['name'].lower() if release['name'] else ''\<close> (and the same for the body).\<close>

definition lower_or_empty :: "string option \<Rightarrow> string" where
  "lower_or_empty s = (case s of None \<Rightarrow> [] | Some t \<Rightarrow> lower t)"

text \<open>The condition of the \<^verbatim>\<open>if\<close> inside the loop over \<^verbatim>\<open>configured_artifacts\<close>.\<close>

definition artifact_matches :: "string \<Rightarrow> release \<Rightarrow> bool" where
  "artifact_matches artifact r =
     (artifact \<noteq> [] \<and>
      (py_in (lower artifact) (lower_or_empty (name r)) \<or>
       py_in (lower artifact) (lower (tag_name r)) \<or>
       py_in (lower artifact) (lower_or_empty (release.body r))))"

text \<open>
  The loop \<^verbatim>\<open>for artifact in configured_artifacts: if ...: matched_artifact = artifact; break\<close>,
  started with \<^verbatim>\<open>matched_artifact = ''\<close>.
\<close>

fun match_configured :: "string list \<Rightarrow> release \<Rightarrow> string" where
  "match_configured [] r = []"
| "match_configured (artifact # rest) r =
     (if artifact_matches artifact r then artifact else match_configured rest r)"

text \<open>The initial value of a slot: \<^verbatim>\<open>[]\<close> in history mode, \<^verbatim>\<open>(None, None)\<close> otherwise.\<close>

definition init_slot :: "bool \<Rightarrow> slot" where
  "init_slot fetch_history = (if fetch_history then History [] else Latest None None)"

text \<open>
  Steps 1 and 2 of the loop body: the configured match, then the fallback to the part of the
  tag before the first \<^verbatim>\<open>'/'\<close>, which also creates the slot of a key not yet in the
  dictionary. Returns \<^verbatim>\<open>matched_artifact\<close> and the dictionary.
\<close>

definition assign_artifact ::
  "string list \<Rightarrow> bool \<Rightarrow> release \<Rightarrow> accumulator \<Rightarrow> string \<times> accumulator" where
  "assign_artifact configured_artifacts fetch_history r acc =
     (let matched_artifact = match_configured configured_artifacts r in
      if matched_artifact = [] \<and> py_in ''/'' (tag_name r) then
        (let potential_artifact = hd (py_split CHR ''/'' (tag_name r)) in
         if potential_artifact \<notin> keys acc
         then (potential_artifact, AList.update potential_artifact (init_slot fetch_history) acc)
         else (potential_artifact, acc))
      else (matched_artifact, acc))"

definition artifact_key :: "string list \<Rightarrow> release \<Rightarrow> string" where
  "artifact_key configured_artifacts r =
     fst (assign_artifact configured_artifacts False r [])"

text \<open>\<^verbatim>\<open>ReleaseInfo(release['tag_name'], release['body'] or "No release notes provided.", release['prerelease'])\<close>\<close>

definition release_info :: "release \<Rightarrow> ReleaseInfo" where
  "release_info r =
     \<lparr> tag = tag_name r,
       body = (case release.body r of None \<Rightarrow> ''No release notes provided.''
               | Some b \<Rightarrow> if b = [] then ''No release notes provided.'' else b),
       is_prerelease = prerelease r \<rparr>"

text \<open>
  Unpacking a dictionary value into two names, \<^verbatim>\<open>current_stable, current_pre = v\<close>: a
  tuple unpacks to its components, a list of exactly two elements unpacks too, any other
  list raises \<^verbatim>\<open>ValueError\<close>.
\<close>

fun unpack2 :: "slot \<Rightarrow> exn + (ReleaseInfo option \<times> ReleaseInfo option)" where
  "unpack2 (Latest s p) = Inr (s, p)"
| "unpack2 (History [a, b]) = Inr (Some a, Some b)"
| "unpack2 (History xs) = Inl ValueError"

text \<open>
  Step 5, storage. History mode is \<^verbatim>\<open>artifacts_releases[matched_artifact].append(release_info)\<close>:
  a missing key raises \<^verbatim>\<open>KeyError\<close>, a tuple has no \<^verbatim>\<open>append\<close>. Latest-only mode reads the
  slot with \<^verbatim>\<open>.get(matched_artifact, (None, None))\<close> and fills an empty component; a
  \<^verbatim>\<open>ReleaseInfo\<close> object is always truthy, so \<^verbatim>\<open>not current_pre\<close> means \<^verbatim>\<open>None\<close>.
\<close>

definition store_release ::
  "bool \<Rightarrow> string \<Rightarrow> release \<Rightarrow> accumulator \<Rightarrow> exn + accumulator" where
  "store_release fetch_history matched_artifact r acc =
     (if fetch_history then
        (case map_of acc matched_artifact of
           None \<Rightarrow> Inl KeyError
         | Some (Latest s p) \<Rightarrow> Inl AttributeError
         | Some (History xs) \<Rightarrow>
             Inr (AList.update matched_artifact (History (xs @ [release_info r])) acc))
      else
        (case unpack2 (case map_of acc matched_artifact of None \<Rightarrow> Latest None None | Some v \<Rightarrow> v) of
           Inl e \<Rightarrow> Inl e
         | Inr (current_stable, current_pre) \<Rightarrow>
             if prerelease r \<and> current_pre = None then
               Inr (AList.update matched_artifact (Latest current_stable (Some (release_info r))) acc)
             else if \<not> prerelease r \<and> current_stable = None then
               Inr (AList.update matched_artifact (Latest (Some (release_info r)) current_pre) acc)
             else Inr acc))"

definition process_release ::
  "string list \<Rightarrow> bool \<Rightarrow> release \<Rightarrow> accumulator \<Rightarrow> exn + accumulator" where
  "process_release configured_artifacts fetch_history r acc =
     (case assign_artifact configured_artifacts fetch_history r acc of
        (matched_artifact, acc') \<Rightarrow> store_release fetch_history matched_artifact r acc')"

text \<open>
  The stop test \<^verbatim>\<open>all(stable and pre for stable, pre in artifacts_releases.values())\<close>:
  the values are visited in dictionary order, each is unpacked, and the first one with an
  empty component ends the test with \<^verbatim>\<open>False\<close>.
\<close>

fun all_filled :: "accumulator \<Rightarrow> exn + bool" where
  "all_filled [] = Inr True"
| "all_filled ((k, v) # rest) =
     (case unpack2 v of
        Inl e \<Rightarrow> Inl e
      | Inr (s, p) \<Rightarrow> if s \<noteq> None \<and> p \<noteq> None then all_filled rest else Inr False)"

text \<open>
  The loop \<^verbatim>\<open>for release in releases\<close> over one page: drafts are skipped with
  \<^verbatim>\<open>continue\<close>; in latest-only mode the loop is left with \<^verbatim>\<open>break\<close> as soon as the stop
  test holds after a release has been stored. An exception leaves the loop at once.
  Beside the dictionary the function returns the releases of the page whose storage step
  completed, in order (the source keeps no such list; the theorems refer to it).
\<close>

fun process_page ::
  "string list \<Rightarrow> bool \<Rightarrow> release list \<Rightarrow> accumulator \<Rightarrow> release list \<times> (exn + accumulator)" where
  "process_page configured_artifacts fetch_history [] acc = ([], Inr acc)"
| "process_page configured_artifacts fetch_history (r # rs) acc =
     (if draft r then process_page configured_artifacts fetch_history rs acc
      else
        (case process_release configured_artifacts fetch_history r acc of
           Inl e \<Rightarrow> ([], Inl e)
         | Inr acc' \<Rightarrow>
             if fetch_history then
               (case process_page configured_artifacts fetch_history rs acc' of
                  (stored, res) \<Rightarrow> (r # stored, res))
             else
               (case all_filled acc' of
                  Inl e \<Rightarrow> ([r], Inl e)
                | Inr True \<Rightarrow> ([r], Inr acc')
                | Inr False \<Rightarrow>
                    (case process_page configured_artifacts fetch_history rs acc' of
                       (stored, res) \<Rightarrow> (r # stored, res)))))"

section \<open>\<^verbatim>\<open>get_latest_releases\<close>: the paging loop\<close>

text \<open>
  What \<^verbatim>\<open>self.session.get(url, params)\<close> gives for one page: it raises a
  \<^verbatim>\<open>RequestException\<close>, or returns a response with a status code, the two rate-limit
  headers (each present or not, read as integers) and the decoded JSON list.
\<close>

record response =
  status_code :: nat
  ratelimit_remaining :: "int option"
  ratelimit_reset :: "int option"
  json :: "release list"

datatype get_result = Raises | Responds response

text \<open>
  The \<^verbatim>\<open>return\<close> statement through which the function is left: the rate-limit return, the
  \<^verbatim>\<open>'No releases found'\<close> return, the return after the loop, and the return of the
  \<^verbatim>\<open>except\<close> clause.
\<close>

datatype exit_path = RateLimited | NoReleases | Finished | RequestFailed

datatype fetch_outcome = Returned exit_path accumulator | Raised exn

definition per_page :: nat where
  "per_page = 100"

text \<open>The literal \<^verbatim>\<open>{'': (None, None)}\<close>.\<close>

definition neutral_result :: accumulator where
  "neutral_result = [([], Latest None None)]"

text \<open>
  \<^verbatim>\<open>datetime.fromtimestamp(t)\<close> for an integer \<open>t\<close>, as CPython answers on a 64-bit Linux
  system whose local time is UTC: a date in the years 1 to 9999 is returned (here the
  timestamp stands for it), a year outside that range raises \<^verbatim>\<open>ValueError\<close>, a value the
  C library cannot convert raises \<^verbatim>\<open>OSError\<close>, and a value outside \<^verbatim>\<open>time_t\<close> raises
  \<^verbatim>\<open>OverflowError\<close>. The lower bound is one day above the first second of year 1, because
  the conversion also looks one day back. In another time zone the bounds move by its offset.
\<close>

definition fromtimestamp :: "int \<Rightarrow> exn + int" where
  "fromtimestamp t =
     (if t < - 9223372036854775808 \<or> 9223372036854775807 < t then Inl OverflowError
      else if t < - 67768040609740800 \<or> 67768036191676799 < t then Inl OSError
      else if t < - 62135510400 \<or> 253402300799 < t then Inl ValueError
      else Inr t)"

text \<open>
  The second rate-limit check, at the end of the loop body; \<^verbatim>\<open>True\<close> means \<^verbatim>\<open>break\<close>.
  \<^verbatim>\<open>response.headers['X-RateLimit-Reset']\<close> raises \<^verbatim>\<open>KeyError\<close> when the header is missing.
\<close>

definition quota_exhausted :: "response \<Rightarrow> exn + bool" where
  "quota_exhausted resp =
     (case ratelimit_remaining resp of
        None \<Rightarrow> Inr False
      | Some remaining \<Rightarrow>
          if remaining < 1 then
            (case ratelimit_reset resp of None \<Rightarrow> Inl KeyError | Some reset_time \<Rightarrow> Inr True)
          else Inr False)"

text \<open>
  The \<^verbatim>\<open>while True\<close> loop. The loop has no bound of its own (a server that keeps answering
  with full pages keeps it running), so the model takes fuel, one unit per request, and
  \<^const>\<open>None\<close> means the fuel ran out. The result is the value of \<^verbatim>\<open>page\<close> when the
  function is left (the number of pages requested), the releases stored so far, and the
  outcome. Only \<^verbatim>\<open>RequestException\<close> is caught; any other exception leaves the function.
  The rate-limit branch (status 403, remaining quota zero) looks the reset header up and
  converts it with \<^verbatim>\<open>datetime.fromtimestamp\<close> before it returns the dictionary; both steps
  can raise.
\<close>

fun fetch_loop ::
  "nat \<Rightarrow> (nat \<Rightarrow> get_result) \<Rightarrow> string list \<Rightarrow> bool \<Rightarrow> nat \<Rightarrow> accumulator \<Rightarrow> release list
     \<Rightarrow> (nat \<times> release list \<times> fetch_outcome) option" where
  "fetch_loop 0 get configured_artifacts fetch_history page acc stored = None"
| "fetch_loop (Suc fuel) get configured_artifacts fetch_history page acc stored =
     (case get page of
        Raises \<Rightarrow> Some (page, stored, Returned RequestFailed neutral_result)
      | Responds resp \<Rightarrow>
          if status_code resp = 403 \<and> ratelimit_remaining resp = Some 0 then
            (case ratelimit_reset resp of
               None \<Rightarrow> Some (page, stored, Raised KeyError)
             | Some reset \<Rightarrow>
                 (case fromtimestamp reset of
                    Inl e \<Rightarrow> Some (page, stored, Raised e)
                  | Inr reset_time \<Rightarrow> Some (page, stored, Returned RateLimited acc)))
          else if 400 \<le> status_code resp \<and> status_code resp < 600 then
            Some (page, stored, Returned RequestFailed neutral_result)
          else if json resp = [] then
            (if page = 1 then Some (page, stored, Returned NoReleases neutral_result)
             else Some (page, stored, Returned Finished acc))
          else
            (case process_page configured_artifacts fetch_history (json resp) acc of
               (new, Inl e) \<Rightarrow> Some (page, stored @ new, Raised e)
             | (new, Inr acc') \<Rightarrow>
                 if length (json resp) < per_page then
                   Some (page, stored @ new, Returned Finished acc')
                 else
                   (case quota_exhausted resp of
                      Inl e \<Rightarrow> Some (page, stored @ new, Raised e)
                    | Inr True \<Rightarrow> Some (page, stored @ new, Returned Finished acc')
                    | Inr False \<Rightarrow>
                        fetch_loop fuel get configured_artifacts fetch_history (page + 1) acc'
                          (stored @ new))))"

text \<open>The initialisation loop \<^verbatim>\<open>for artifact in configured_artifacts\<close>.\<close>

definition init_accumulator :: "string list \<Rightarrow> bool \<Rightarrow> accumulator" where
  "init_accumulator configured_artifacts fetch_history =
     fold (\<lambda>artifact acc. AList.update artifact (init_slot fetch_history) acc)
       configured_artifacts []"

text \<open>
  The fetcher object: the session (here the releases endpoint, by repository and page),
  the resolved settings, and the per-repository artifact lists that
  \<^verbatim>\<open>get_monorepo_artifacts\<close> resolves.
\<close>

record fetcher =
  session :: "string \<Rightarrow> nat \<Rightarrow> get_result"
  artifacts_root :: string
  fetch_history :: bool
  monorepo_artifacts :: "string \<Rightarrow> string list"

definition get_latest_releases ::
  "nat \<Rightarrow> fetcher \<Rightarrow> string \<Rightarrow> (nat \<times> release list \<times> fetch_outcome) option" where
  "get_latest_releases fuel self repo =
     (let configured_artifacts = monorepo_artifacts self repo in
      fetch_loop fuel (session self repo) configured_artifacts (fetch_history self) 1
        (init_accumulator configured_artifacts (fetch_history self)) [])"

section \<open>Paths and the output tree\<close>

text \<open>
  \<^verbatim>\<open>pathlib.Path\<close> on a POSIX system: a path is its root (\<^verbatim>\<open>''\<close>, \<^verbatim>\<open>'/'\<close> or \<^verbatim>\<open>'//'\<close>) and its
  parts; empty and \<^verbatim>\<open>'.'\<close> components are dropped, and joining an absolute segment
  replaces the path.
\<close>

type_synonym path = "string \<times> string list"

definition seg_root :: "string \<Rightarrow> string" where
  "seg_root s =
     (if startswith s ''//'' \<and> \<not> startswith s ''///'' then ''//''
      else if startswith s ''/'' then ''/'' else [])"

definition seg_parts :: "string \<Rightarrow> string list" where
  "seg_parts s = filter (\<lambda>x. x \<noteq> [] \<and> x \<noteq> ''.'') (py_split CHR ''/'' s)"

definition Path :: "string \<Rightarrow> path" where
  "Path s = (seg_root s, seg_parts s)"

definition joinpath :: "path \<Rightarrow> string \<Rightarrow> path" where
  "joinpath p s = (if seg_root s \<noteq> [] then Path s else (fst p, snd p @ seg_parts s))"

text \<open>
  The output tree: what is at each path, a file with its text or a directory. The
  working directory and the root (paths without parts) always exist. Failures of the
  operating system other than the ones below (permissions, a full disk) are not modelled.
\<close>

datatype node = File string | Dir

type_synonym filesystem = "path \<Rightarrow> node option"

definition is_file :: "filesystem \<Rightarrow> path \<Rightarrow> bool" where
  "is_file fs p = (case fs p of Some (File c) \<Rightarrow> True | _ \<Rightarrow> False)"

text \<open>The directories from the first part of a path down to the path itself.\<close>

definition path_prefixes :: "path \<Rightarrow> path list" where
  "path_prefixes p = map (\<lambda>n. (fst p, take n (snd p))) [1..<Suc (length (snd p))]"

text \<open>
  \<^verbatim>\<open>base_path.mkdir(parents=True, exist_ok=True)\<close>: fails when a file is in the way,
  otherwise every missing directory on the way is created.
\<close>

definition mkdir_parents :: "filesystem \<Rightarrow> path \<Rightarrow> exn + filesystem" where
  "mkdir_parents fs p =
     (if list_ex (is_file fs) (path_prefixes p) then Inl OSError
      else Inr (fold (\<lambda>q f. f(q \<mapsto> Dir)) (path_prefixes p) fs))"

definition path_exists :: "filesystem \<Rightarrow> path \<Rightarrow> bool" where
  "path_exists fs p = (snd p = [] \<or> fs p \<noteq> None)"

text \<open>
  \<^verbatim>\<open>filepath.write_text(content)\<close>: the parent must be an existing directory and the path
  itself must not be a directory.
\<close>

definition write_text :: "filesystem \<Rightarrow> path \<Rightarrow> string \<Rightarrow> exn + filesystem" where
  "write_text fs p content =
     (if snd p = [] then Inl OSError
      else if butlast (snd p) \<noteq> [] \<and> fs (fst p, butlast (snd p)) \<noteq> Some Dir then Inl OSError
      else if fs p = Some Dir then Inl OSError
      else Inr (fs(p \<mapsto> File content)))"

section \<open>\<^verbatim>\<open>save_release_notes\<close>\<close>

definition base_path :: "string \<Rightarrow> string \<Rightarrow> string \<Rightarrow> string \<Rightarrow> path" where
  "base_path root owner repo artifact =
     (if artifact \<noteq> [] then joinpath (joinpath (joinpath (Path root) owner) repo) artifact
      else joinpath (joinpath (Path root) owner) repo)"

text \<open>The clean-up of the tag name: \<^verbatim>\<open>tag[len(artifact)+1:]\<close> when the tag starts with \<^verbatim>\<open>f"{artifact}/"\<close>.\<close>

definition clean_tag :: "string \<Rightarrow> string \<Rightarrow> string" where
  "clean_tag artifact t =
     (if artifact \<noteq> [] \<and> startswith t (artifact @ ''/'') then drop (length artifact + 1) t
      else t)"

definition filepath :: "string \<Rightarrow> string \<Rightarrow> string \<Rightarrow> string \<Rightarrow> string \<Rightarrow> path" where
  "filepath root owner repo artifact t =
     joinpath (base_path root owner repo artifact) (clean_tag artifact t @ ''.md'')"

definition content :: "string \<Rightarrow> string \<Rightarrow> string \<Rightarrow> ReleaseInfo \<Rightarrow> string" where
  "content owner repo artifact rel =
     (let release_type = (if is_prerelease rel then ''Pre-release'' else ''Stable Release'');
          full_path = owner @ ''/'' @ repo @ (if artifact \<noteq> [] then ''/'' @ artifact else [])
      in ''# '' @ full_path @ '' - '' @ tag rel @ '' ('' @ release_type @ '')'' @
         [CHR 0x0A, CHR 0x0A] @ ''## Release Notes'' @ [CHR 0x0A, CHR 0x0A] @
         body rel @ [CHR 0x0A])"

text \<open>
  The \<^verbatim>\<open>except Exception\<close> clause: its second \<^verbatim>\<open>print\<close> formats \<^verbatim>\<open>release.tag\<close>, which
  raises \<^verbatim>\<open>AttributeError\<close> out of the handler when the release is \<^verbatim>\<open>None\<close>.
\<close>

definition save_failed :: "filesystem \<Rightarrow> ReleaseInfo option \<Rightarrow> filesystem \<times> (exn + bool)" where
  "save_failed fs rel = (case rel of None \<Rightarrow> (fs, Inl AttributeError) | Some r \<Rightarrow> (fs, Inr False))"

text \<open>
  The writer. The release is optional because \<^verbatim>\<open>process_repository\<close> can pass \<^verbatim>\<open>None\<close>;
  then \<^verbatim>\<open>release.tag\<close> raises inside the \<^verbatim>\<open>try\<close>, after the directory has been made.
\<close>

definition save_release_notes ::
  "string \<Rightarrow> filesystem \<Rightarrow> string \<Rightarrow> string \<Rightarrow> string \<Rightarrow> ReleaseInfo option
     \<Rightarrow> filesystem \<times> (exn + bool)" where
  "save_release_notes root fs owner repo artifact rel =
     (case mkdir_parents fs (base_path root owner repo artifact) of
        Inl e \<Rightarrow> save_failed fs rel
      | Inr fs1 \<Rightarrow>
          (case rel of
             None \<Rightarrow> save_failed fs1 rel
           | Some r \<Rightarrow>
               if path_exists fs1 (filepath root owner repo artifact (tag r)) then (fs1, Inr False)
               else
                 (case write_text fs1 (filepath root owner repo artifact (tag r))
                         (content owner repo artifact r) of
                    Inl e \<Rightarrow> save_failed fs1 rel
                  | Inr fs2 \<Rightarrow> (fs2, Inr True))))"

section \<open>\<^verbatim>\<open>process_repository\<close> and \<^verbatim>\<open>main\<close>\<close>

text \<open>
  Saving a sequence of releases for one artifact while counting \<^verbatim>\<open>written\<close> and
  \<^verbatim>\<open>skipped\<close>; an exception of the writer ends the loop.
\<close>

fun save_each ::
  "string \<Rightarrow> string \<Rightarrow> string \<Rightarrow> string \<Rightarrow> ReleaseInfo option list \<Rightarrow> filesystem \<Rightarrow> nat \<times> nat
     \<Rightarrow> filesystem \<times> (exn + nat \<times> nat)" where
  "save_each root owner repo artifact [] fs counts = (fs, Inr counts)"
| "save_each root owner repo artifact (rel # rels) fs (written, skipped) =
     (case save_release_notes root fs owner repo artifact rel of
        (fs', Inl e) \<Rightarrow> (fs', Inl e)
      | (fs', Inr True) \<Rightarrow> save_each root owner repo artifact rels fs' (written + 1, skipped)
      | (fs', Inr False) \<Rightarrow> save_each root owner repo artifact rels fs' (written, skipped + 1))"

text \<open>
  What the two loops of \<^verbatim>\<open>process_repository\<close> hand to the writer for one dictionary value.
  History mode iterates the value (\<^verbatim>\<open>for release in releases\<close>): the elements of a list,
  or the two components of a tuple, \<^verbatim>\<open>None\<close> included. Latest-only mode unpacks the value
  and saves the components that are not \<^verbatim>\<open>None\<close>.
\<close>

definition releases_to_save :: "bool \<Rightarrow> slot \<Rightarrow> exn + ReleaseInfo option list" where
  "releases_to_save history v =
     (if history then
        (case v of History xs \<Rightarrow> Inr (map Some xs) | Latest s p \<Rightarrow> Inr [s, p])
      else
        (case unpack2 v of
           Inl e \<Rightarrow> Inl e
         | Inr (stable_release, pre) \<Rightarrow> Inr (filter (\<lambda>x. x \<noteq> None) [stable_release, pre])))"

text \<open>The loop over \<^verbatim>\<open>artifacts_releases.items()\<close> that fills \<^verbatim>\<open>summary\<close>.\<close>

fun save_artifacts ::
  "string \<Rightarrow> bool \<Rightarrow> string \<Rightarrow> string \<Rightarrow> accumulator \<Rightarrow> filesystem \<Rightarrow> (string \<times> nat \<times> nat) list
     \<Rightarrow> filesystem \<times> (exn + (string \<times> nat \<times> nat) list)" where
  "save_artifacts root history owner repo [] fs summary = (fs, Inr summary)"
| "save_artifacts root history owner repo ((artifact, v) # rest) fs summary =
     (case releases_to_save history v of
        Inl e \<Rightarrow> (fs, Inl e)
      | Inr rels \<Rightarrow>
          (case save_each root owner repo artifact rels fs (0, 0) of
             (fs', Inl e) \<Rightarrow> (fs', Inl e)
           | (fs', Inr counts) \<Rightarrow>
               save_artifacts root history owner repo rest fs'
                 (AList.update artifact counts summary)))"

text \<open>
  The summary printing reads \<^verbatim>\<open>artifacts_releases[artifact][0].tag\<close> in history mode when the
  value is truthy (a non-empty list, or any tuple); that raises when the element is \<^verbatim>\<open>None\<close>.
\<close>

definition print_summary :: "bool \<Rightarrow> accumulator \<Rightarrow> exn option" where
  "print_summary history acc =
     (if history \<and> list_ex (\<lambda>(artifact, v). case v of Latest None p \<Rightarrow> True | _ \<Rightarrow> False) acc
      then Some AttributeError else None)"

text \<open>
  \<^verbatim>\<open>process_repository\<close>. A repository string that does not split into exactly two parts
  at \<^verbatim>\<open>'/'\<close> is reported and skipped (the \<^verbatim>\<open>ValueError\<close> is caught). Nothing else is caught
  here: an exception of the fetch, of the writer or of the summary leaves the function.
\<close>

definition process_repository ::
  "nat \<Rightarrow> fetcher \<Rightarrow> filesystem \<Rightarrow> string \<Rightarrow> (filesystem \<times> (exn + unit)) option" where
  "process_repository fuel self fs repo =
     (case py_split CHR ''/'' (strip repo) of
        [owner, repo_name] \<Rightarrow>
          (case get_latest_releases fuel self (owner @ ''/'' @ repo_name) of
             None \<Rightarrow> None
           | Some (page, stored, Raised e) \<Rightarrow> Some (fs, Inl e)
           | Some (page, stored, Returned ep artifacts_releases) \<Rightarrow>
               (case save_artifacts (artifacts_root self) (fetch_history self) owner repo_name
                       artifacts_releases fs [] of
                  (fs', Inl e) \<Rightarrow> Some (fs', Inl e)
                | (fs', Inr summary) \<Rightarrow>
                    (case print_summary (fetch_history self) artifacts_releases of
                       Some e \<Rightarrow> Some (fs', Inl e)
                     | None \<Rightarrow> Some (fs', Inr ()))))
      | _ \<Rightarrow> Some (fs, Inr ()))"

text \<open>
  The loop of \<^verbatim>\<open>main\<close> over the resolved repository list. Nothing is caught: the first
  exception ends the run. The result is the output tree, the repositories whose
  processing returned, and the exception that ended the run, if any.
\<close>

fun main ::
  "nat \<Rightarrow> fetcher \<Rightarrow> string list \<Rightarrow> filesystem \<Rightarrow> (filesystem \<times> string list \<times> exn option) option" where
  "main fuel self [] fs = Some (fs, [], None)"
| "main fuel self (repo # repositories) fs =
     (case process_repository fuel self fs repo of
        None \<Rightarrow> None
      | Some (fs', Inl e) \<Rightarrow> Some (fs', [], Some e)
      | Some (fs', Inr u) \<Rightarrow>
          (case main fuel self repositories fs' of
             None \<Rightarrow> None
           | Some (fs'', processed, e) \<Rightarrow> Some (fs'', repo # processed, e)))"

section \<open>The wording of the specification\<close>

text \<open>
  The specification says a configured key matches when its lowercase form appears as a
  substring of the lowercased name, tag or body. \<open>key_occurs\<close> is that test, with the
  library's \<^const>\<open>sublist\<close>.
\<close>

definition key_occurs :: "string \<Rightarrow> release \<Rightarrow> bool" where
  "key_occurs k r =
     (sublist (lower k) (lower_or_empty (name r)) \<or> sublist (lower k) (lower (tag_name r)) \<or>
      sublist (lower k) (lower_or_empty (release.body r)))"

text \<open>
  The rule as claim C5 words it: the name is tested first, then the tag, then the body;
  within one field the first key of the allow-list whose lowercase form occurs in it wins.
\<close>

fun first_in_field :: "string list \<Rightarrow> string \<Rightarrow> string option" where
  "first_in_field [] field = None"
| "first_in_field (k # ks) field =
     (if sublist (lower k) field then Some k else first_in_field ks field)"

definition claimed_key :: "string list \<Rightarrow> release \<Rightarrow> string option" where
  "claimed_key configured r =
     (case first_in_field configured (lower_or_empty (name r)) of
        Some k \<Rightarrow> Some k
      | None \<Rightarrow>
          (case first_in_field configured (lower (tag_name r)) of
             Some k \<Rightarrow> Some k
           | None \<Rightarrow> first_in_field configured (lower_or_empty (release.body r))))"

text \<open>
  "The first record of that category, in page-arrival order, classified to that key": over
  the releases as they arrive, the first one that is not a draft, has the given
  prerelease flag and is assigned the key.
\<close>

definition first_arrived :: "string list \<Rightarrow> string \<Rightarrow> bool \<Rightarrow> release list \<Rightarrow> ReleaseInfo option" where
  "first_arrived configured k pre rs =
     map_option release_info
       (find (\<lambda>r. \<not> draft r \<and> prerelease r = pre \<and> artifact_key configured r = k) rs)"

text \<open>"The tag matches no configured key": no key's lowercase form is a substring of the lowercased tag.\<close>

fun tag_matches_no_key :: "string list \<Rightarrow> release \<Rightarrow> bool" where
  "tag_matches_no_key [] r = True"
| "tag_matches_no_key (k # ks) r =
     (\<not> sublist (lower k) (lower (tag_name r)) \<and> tag_matches_no_key ks r)"

text \<open>"The substring of the tag before the first separator".\<close>

definition tag_prefix :: "string \<Rightarrow> string" where
  "tag_prefix t = takeWhile (\<lambda>c. c \<noteq> CHR ''/'') t"

text \<open>
  The keys "derived via the tag-prefix fallback" from a list of releases, and the empty key,
  present when one of the releases takes the default (no configured key matched and the
  tag has no \<^verbatim>\<open>'/'\<close>).
\<close>

definition tag_derived_keys :: "string list \<Rightarrow> release list \<Rightarrow> string set" where
  "tag_derived_keys configured rs =
     (\<lambda>r. tag_prefix (tag_name r)) `
       set (filter (\<lambda>r. match_configured configured r = [] \<and> CHR ''/'' \<in> set (tag_name r)) rs)"

definition default_keys :: "string list \<Rightarrow> release list \<Rightarrow> string set" where
  "default_keys configured rs =
     (\<lambda>r. []) `
       set (filter (\<lambda>r. match_configured configured r = [] \<and> CHR ''/'' \<notin> set (tag_name r)) rs)"

section \<open>Shapes of the dictionary\<close>

text \<open>Every value is a list, as history mode keeps them.\<close>

definition all_history :: "accumulator \<Rightarrow> bool" where
  "all_history acc = (\<forall>(k, v) \<in> set acc. \<exists>xs. v = History xs)"

section \<open>Example inputs\<close>

text \<open>The releases of the repository's test data, and releases for the other examples.\<close>

definition regular_release :: release where
  "regular_release =
     \<lparr> tag_name = ''v1.0.0'', name = Some ''Version 1.0.0'', body = Some ''Regular release notes'',
       draft = False, prerelease = False \<rparr>"

definition monorepo_release :: release where
  "monorepo_release =
     \<lparr> tag_name = ''op-node/v1.10.2'', name = Some ''op-node v1.10.2'',
       body = Some ''Monorepo release notes'', draft = False, prerelease = False \<rparr>"

definition pre_release :: release where
  "pre_release =
     \<lparr> tag_name = ''v2.0.0-rc1'', name = Some ''Version 2.0.0-rc1'', body = Some ''Pre-release notes'',
       draft = False, prerelease = True \<rparr>"

definition draft_release :: release where
  "draft_release =
     \<lparr> tag_name = ''v3.0.0'', name = Some ''Draft Release'', body = Some ''Draft notes'',
       draft = True, prerelease = False \<rparr>"

definition tools_release :: release where
  "tools_release =
     \<lparr> tag_name = ''tools/v1'', name = Some ''Geth v1.0'', body = None,
       draft = False, prerelease = False \<rparr>"

definition monorepo_notes :: ReleaseInfo where
  "monorepo_notes =
     \<lparr> tag = ''op-node/v1.0.0'', body = ''Test monorepo notes'', is_prerelease = False \<rparr>"

text \<open>An output tree that already holds the file of \<open>monorepo_notes\<close>.\<close>

definition existing_tree :: filesystem where
  "existing_tree =
     [([], [''artifacts'']) \<mapsto> Dir,
      ([], [''artifacts'', ''owner'']) \<mapsto> Dir,
      ([], [''artifacts'', ''owner'', ''repo'']) \<mapsto> Dir,
      ([], [''artifacts'', ''owner'', ''repo'', ''op-node'']) \<mapsto> Dir,
      ([], [''artifacts'', ''owner'', ''repo'', ''op-node'', ''v1.0.0.md'']) \<mapsto> File ''kept'']"

text \<open>Responses and servers (the releases endpoint of one repository, by page).\<close>

definition ok_response :: "release list \<Rightarrow> response" where
  "ok_response rels =
     \<lparr> status_code = 200, ratelimit_remaining = None, ratelimit_reset = None, json = rels \<rparr>"

definition full_page :: "release list" where
  "full_page = regular_release # pre_release # replicate 98 monorepo_release"

definition full_then_empty :: "nat \<Rightarrow> get_result" where
  "full_then_empty p = (if p = 1 then Responds (ok_response full_page) else Responds (ok_response []))"

definition full_then_failure :: "nat \<Rightarrow> get_result" where
  "full_then_failure p = (if p = 1 then Responds (ok_response full_page) else Raises)"

definition both_filled :: accumulator where
  "both_filled = [([], Latest (Some (release_info regular_release)) (Some (release_info pre_release)))]"

definition limit_without_reset :: "nat \<Rightarrow> get_result" where
  "limit_without_reset p =
     Responds \<lparr> status_code = 403, ratelimit_remaining = Some 0, ratelimit_reset = None, json = [] \<rparr>"

definition limit_with_reset :: "nat \<Rightarrow> get_result" where
  "limit_with_reset p =
     Responds \<lparr> status_code = 403, ratelimit_remaining = Some 0, ratelimit_reset = Some 1700000000,
       json = [] \<rparr>"

definition empty_server :: "nat \<Rightarrow> get_result" where
  "empty_server p = Responds (ok_response [])"

definition failing_server :: "nat \<Rightarrow> get_result" where
  "failing_server p = Raises"

definition test_server :: "nat \<Rightarrow> get_result" where
  "test_server p =
     (if p = 1 then Responds (ok_response [regular_release, monorepo_release, pre_release, draft_release])
      else Responds (ok_response []))"

definition fetcher_of :: "(nat \<Rightarrow> get_result) \<Rightarrow> bool \<Rightarrow> string list \<Rightarrow> fetcher" where
  "fetcher_of server history configured =
     \<lparr> session = (\<lambda>repo. server), artifacts_root = ''artifacts'', fetch_history = history,
       monorepo_artifacts = (\<lambda>repo. configured) \<rparr>"

text \<open>A release whose name holds one configured key and whose tag holds another.\<close>

definition alpha_release :: release where
  "alpha_release =
     \<lparr> tag_name = ''alpha-v1'', name = Some ''beta release'', body = None,
       draft = False, prerelease = False \<rparr>"

text \<open>
  An older release of the monorepo artifact, and a server whose full first page is
  followed by a second page that holds it.
\<close>

definition older_monorepo_release :: release where
  "older_monorepo_release =
     \<lparr> tag_name = ''op-node/v1.9.0'', name = Some ''op-node v1.9.0'',
       body = Some ''Older monorepo release notes'', draft = False, prerelease = False \<rparr>"

definition full_then_older :: "nat \<Rightarrow> get_result" where
  "full_then_older p =
     (if p = 1 then Responds (ok_response full_page)
      else Responds (ok_response [older_monorepo_release]))"

text \<open>A rate-limit response whose reset time is the first second of the year 10000.\<close>

definition limit_far_reset :: "nat \<Rightarrow> get_result" where
  "limit_far_reset p =
     Responds \<lparr> status_code = 403, ratelimit_remaining = Some 0, ratelimit_reset = Some 253402300800,
       json = [] \<rparr>"

section \<open>Auxiliary lemmas\<close>

lemmas string_defs = lower_def lower_char_def lower_or_empty_def startswith_def

lemmas path_defs = filepath_def base_path_def joinpath_def Path_def seg_root_def seg_parts_def
  clean_tag_def startswith_def

lemmas fs_defs = save_release_notes_def save_failed_def mkdir_parents_def path_prefixes_def
  path_exists_def write_text_def is_file_def

lemma startswith_iff_prefix: "startswith s p \<longleftrightarrow> prefix p s"
  unfolding startswith_def prefix_def
  by (metis append_eq_conv_conj append_take_drop_id)

lemma py_in_iff_sublist: "py_in a s \<longleftrightarrow> sublist a s"
proof (induction s)
  case Nil
  show ?case by auto
next
  case (Cons c s)
  show ?case
    by (simp only: py_in.simps Cons.IH startswith_iff_prefix sublist_Cons_right)
qed

lemma py_in_slash: "py_in ''/'' t \<longleftrightarrow> CHR ''/'' \<in> set t"
  by (induction t) (auto simp: startswith_def)

lemma py_split_not_Nil: "py_split c s \<noteq> []"
  by (induction s) (auto split: list.splits)

lemma hd_py_split: "hd (py_split c s) = takeWhile (\<lambda>x. x \<noteq> c) s"
  by (induction s) (auto split: list.splits simp: py_split_not_Nil)

lemma keys_update: "keys (AList.update k v acc) = insert k (keys acc)"
  by (simp add: keys_def dom_update)

lemma update_fresh: "k \<notin> keys acc \<Longrightarrow> AList.update k v acc = acc @ [(k, v)]"
  by (induction acc) (auto simp: keys_def)

lemma keys_map_of: "k \<in> keys acc \<longleftrightarrow> map_of acc k \<noteq> None"
  by (simp add: keys_def map_of_eq_None_iff)

lemma artifact_matches_iff: "artifact_matches k r \<longleftrightarrow> k \<noteq> [] \<and> key_occurs k r"
  by (simp add: artifact_matches_def key_occurs_def py_in_iff_sublist)

lemma match_configured_first:
  "configured = earlier @ k # later \<Longrightarrow> artifact_matches k r \<Longrightarrow>
   \<forall>k' \<in> set earlier. \<not> artifact_matches k' r \<Longrightarrow> match_configured configured r = k"
  by (induction earlier arbitrary: configured) auto

lemma match_configured_none:
  "match_configured configured r = [] \<longleftrightarrow> (\<forall>k \<in> set configured. \<not> artifact_matches k r)"
  by (induction configured) (auto simp: artifact_matches_def)

lemma match_configured_cases:
  "match_configured configured r = [] \<or>
   (match_configured configured r \<in> set configured \<and>
    artifact_matches (match_configured configured r) r)"
  by (induction configured) auto

lemma clean_tag_strip:
  "artifact \<noteq> [] \<Longrightarrow> clean_tag artifact (artifact @ CHR ''/'' # rest) = rest"
  by (simp add: clean_tag_def startswith_def)

lemma clean_tag_verbatim:
  "artifact = [] \<or> \<not> prefix (artifact @ ''/'') t \<Longrightarrow> clean_tag artifact t = t"
  by (auto simp: clean_tag_def startswith_iff_prefix)

lemma save_written:
  assumes "save_release_notes root fs owner repo artifact (Some rel) = (fs', Inr True)"
  shows "fs' (filepath root owner repo artifact (tag rel)) =
           Some (File (content owner repo artifact rel))"
  using assms
  by (auto simp: save_release_notes_def save_failed_def write_text_def
      split: sum.splits if_splits)

lemma fold_mkdir:
  "fold (\<lambda>q f. f(q \<mapsto> Dir)) qs fs x = (if x \<in> set qs then Some Dir else fs x)"
  by (induction qs arbitrary: fs) auto

lemma mkdir_parents_result:
  assumes "mkdir_parents fs p = Inr fs1"
  shows "fs1 x = (if x \<in> set (path_prefixes p) then Some Dir else fs x)"
    and "\<forall>q \<in> set (path_prefixes p). \<not> is_file fs q"
  using assms
  by (auto simp: mkdir_parents_def fold_mkdir list_ex_iff split: if_splits)

lemma mkdir_parents_files:
  assumes "mkdir_parents fs p = Inr fs1"
  shows "fs1 x = Some (File c) \<longleftrightarrow> fs x = Some (File c)"
  using mkdir_parents_result(1)[OF assms, of x] mkdir_parents_result(2)[OF assms]
  by (auto simp: is_file_def split: if_splits)

lemma mkdir_parents_again:
  assumes "\<forall>q \<in> set (path_prefixes p). fs q = Some Dir"
  shows "mkdir_parents fs p = Inr fs"
proof -
  have "\<not> list_ex (is_file fs) (path_prefixes p)"
    using assms by (auto simp: list_ex_iff is_file_def)
  moreover have "fold (\<lambda>q f. f(q \<mapsto> Dir)) (path_prefixes p) fs = fs"
    using assms by (auto simp: fold_mkdir fun_eq_iff)
  ultimately show ?thesis by (simp add: mkdir_parents_def)
qed

lemma save_existing:
  assumes "fs (filepath root owner repo artifact (tag rel)) = Some (File c)"
  shows "snd (save_release_notes root fs owner repo artifact (Some rel)) = Inr False"
    and "fst (save_release_notes root fs owner repo artifact (Some rel)) x = Some (File c') \<longleftrightarrow>
         fs x = Some (File c')"
proof -
  let ?target = "filepath root owner repo artifact (tag rel)"
  show "snd (save_release_notes root fs owner repo artifact (Some rel)) = Inr False"
  proof (cases "mkdir_parents fs (base_path root owner repo artifact)")
    case (Inl e)
    then show ?thesis by (simp add: save_release_notes_def save_failed_def)
  next
    case (Inr fs1)
    have "fs1 ?target = Some (File c)"
      using mkdir_parents_files[OF Inr] assms by simp
    then show ?thesis
      using Inr by (simp add: save_release_notes_def path_exists_def)
  qed
  show "fst (save_release_notes root fs owner repo artifact (Some rel)) x = Some (File c') \<longleftrightarrow>
         fs x = Some (File c')"
  proof (cases "mkdir_parents fs (base_path root owner repo artifact)")
    case (Inl e)
    then show ?thesis by (simp add: save_release_notes_def save_failed_def)
  next
    case (Inr fs1)
    have "fs1 ?target = Some (File c)"
      using mkdir_parents_files[OF Inr] assms by simp
    then have "path_exists fs1 ?target"
      by (simp add: path_exists_def)
    then have "fst (save_release_notes root fs owner repo artifact (Some rel)) = fs1"
      using Inr by (simp add: save_release_notes_def)
    then show ?thesis
      using mkdir_parents_files[OF Inr] by simp
  qed
qed

lemma save_again:
  assumes "save_release_notes root fs owner repo artifact (Some rel) = (fs2, Inr True)"
  shows "save_release_notes root fs2 owner repo artifact (Some rel) = (fs2, Inr False)"
proof -
  let ?target = "filepath root owner repo artifact (tag rel)"
  let ?base = "base_path root owner repo artifact"
  obtain fs1 where mk: "mkdir_parents fs ?base = Inr fs1"
    and absent: "\<not> path_exists fs1 ?target"
    and wr: "write_text fs1 ?target (content owner repo artifact rel) = Inr fs2"
    using assms
    by (auto simp: save_release_notes_def save_failed_def split: sum.splits if_splits)
  have fs2: "fs2 = fs1(?target \<mapsto> File (content owner repo artifact rel))"
    using wr by (auto simp: write_text_def split: if_splits)
  have dirs: "\<forall>q \<in> set (path_prefixes ?base). fs1 q = Some Dir"
    using mkdir_parents_result(1)[OF mk] by simp
  have "?target \<notin> set (path_prefixes ?base)"
    using absent dirs by (auto simp: path_exists_def)
  then have "\<forall>q \<in> set (path_prefixes ?base). fs2 q = Some Dir"
    using dirs fs2 by auto
  then have "mkdir_parents fs2 ?base = Inr fs2"
    by (rule mkdir_parents_again)
  moreover have "path_exists fs2 ?target"
    using fs2 by (simp add: path_exists_def)
  ultimately show ?thesis
    by (simp add: save_release_notes_def)
qed

lemmas release_defs = regular_release_def pre_release_def monorepo_release_def draft_release_def
  tools_release_def
lemmas classify_defs = process_release_def assign_artifact_def artifact_matches_def
  store_release_def init_slot_def keys_def release_info_def Let_def

lemma full_page_processed: "process_page [''''] False full_page (init_accumulator [''''] False) =
   ([regular_release, pre_release], Inr both_filled)"
  by (simp add: full_page_def init_accumulator_def both_filled_def classify_defs string_defs release_defs)

text \<open>
  One turn of the paging loop that returns a dictionary: it returns the neutral result, or
  the dictionary it was entered with, or the dictionary after the page, or it goes on to
  the next page. Properties of the returned dictionary follow by induction on the fuel.
\<close>

lemma fetch_loop_Suc_cases:
  assumes "fetch_loop (Suc fuel) get configured history page acc stored =
             Some (page', stored', Returned ep acc')"
  obtains
    (neutral) "ep = RequestFailed \<or> ep = NoReleases" "acc' = neutral_result"
  | (kept) "ep = RateLimited \<or> ep = Finished" "acc' = acc" "stored' = stored"
  | (last) rs new where "ep = Finished" "process_page configured history rs acc = (new, Inr acc')"
      "stored' = stored @ new"
  | (more) rs new acc1 where "process_page configured history rs acc = (new, Inr acc1)"
      "fetch_loop fuel get configured history (page + 1) acc1 (stored @ new) =
         Some (page', stored', Returned ep acc')"
  using assms
  by (auto split: get_result.splits option.splits if_splits prod.splits sum.splits bool.splits)

lemma fetch_loop_invariant:
  assumes "fetch_loop fuel get configured history page acc stored =
             Some (page', stored', Returned ep acc')"
    and "ep = Finished \<or> ep = RateLimited"
    and "I acc stored"
    and step: "\<And>acc stored rs new acc1. I acc stored \<Longrightarrow>
           process_page configured history rs acc = (new, Inr acc1) \<Longrightarrow> I acc1 (stored @ new)"
  shows "I acc' stored'"
  using assms(1,3)
proof (induction fuel arbitrary: page acc stored)
  case 0
  then show ?case by simp
next
  case (Suc fuel)
  from Suc.prems(1) show ?case
  proof (cases rule: fetch_loop_Suc_cases)
    case neutral
    with assms(2) show ?thesis by auto
  next
    case kept
    with Suc.prems(2) show ?thesis by simp
  next
    case (last rs new)
    with step[OF Suc.prems(2)] show ?thesis by simp
  next
    case (more rs new acc1)
    from Suc.IH[OF more(2) step[OF Suc.prems(2) more(1)]] show ?thesis .
  qed
qed

lemma fetch_loop_neutral:
  assumes "fetch_loop fuel get configured history page acc stored =
             Some (page', stored', Returned ep acc')"
    and "ep = NoReleases \<or> ep = RequestFailed"
  shows "acc' = neutral_result"
  using assms(1)
proof (induction fuel arbitrary: page acc stored)
  case 0
  then show ?case by simp
next
  case (Suc fuel)
  from Suc.prems(1) show ?case
  proof (cases rule: fetch_loop_Suc_cases)
    case neutral
    then show ?thesis by simp
  next
    case kept
    with assms(2) show ?thesis by auto
  next
    case (last rs new)
    with assms(2) show ?thesis by auto
  next
    case (more rs new acc1)
    from Suc.IH[OF more(2)] show ?thesis .
  qed
qed

lemma all_history_update:
  "all_history acc \<Longrightarrow> all_history (AList.update k (History xs) acc)"
  by (induction acc) (auto simp: all_history_def)

lemma all_history_init: "all_history (init_accumulator configured True)"
proof -
  have step: "all_history acc \<Longrightarrow>
        all_history (fold (\<lambda>artifact acc. AList.update artifact (init_slot True) acc) configured acc)"
    for acc
    by (induction configured arbitrary: acc) (auto simp: init_slot_def all_history_update)
  have "all_history []" by (simp add: all_history_def)
  from step[OF this] show ?thesis
    by (simp add: init_accumulator_def)
qed

lemma process_release_all_history:
  assumes "process_release configured True r acc = Inr acc'" and "all_history acc"
  shows "all_history acc'"
  using assms
  by (auto simp: process_release_def assign_artifact_def store_release_def init_slot_def Let_def
      all_history_update split: if_splits option.splits slot.splits)

lemma process_page_all_history:
  assumes "process_page configured True rs acc = (new, Inr acc')" and "all_history acc"
  shows "all_history acc'"
  using assms
proof (induction rs arbitrary: acc new)
  case Nil
  then show ?case by simp
next
  case (Cons r rs)
  show ?case
  proof (cases "draft r")
    case True
    with Cons show ?thesis by simp
  next
    case False
    with Cons.prems obtain acc1 new1 where
      1: "process_release configured True r acc = Inr acc1" and
      2: "process_page configured True rs acc1 = (new1, Inr acc')"
      by (auto split: sum.splits prod.splits)
    from process_release_all_history[OF 1 Cons.prems(2)] Cons.IH[OF 2] show ?thesis by simp
  qed
qed

lemma assign_artifact_fst:
  "fst (assign_artifact configured history r acc) = artifact_key configured r"
  by (simp add: assign_artifact_def artifact_key_def Let_def)

lemma assign_artifact_snd:
  "snd (assign_artifact configured history r acc) = acc \<or>
   (artifact_key configured r \<notin> keys acc \<and>
    snd (assign_artifact configured history r acc) =
      AList.update (artifact_key configured r) (init_slot history) acc)"
  by (simp add: assign_artifact_def artifact_key_def Let_def)

lemma artifact_key_cases:
  "artifact_key configured r =
     (if match_configured configured r \<noteq> [] then match_configured configured r
      else if CHR ''/'' \<in> set (tag_name r) then tag_prefix (tag_name r) else [])"
  by (simp add: artifact_key_def assign_artifact_def Let_def py_in_slash hd_py_split tag_prefix_def)

lemma keys_assign_artifact:
  "keys (snd (assign_artifact configured history r acc)) \<union> {artifact_key configured r} =
   insert (artifact_key configured r) (keys acc)"
  using assign_artifact_snd[of configured history r acc]
  by (auto simp: keys_update)

lemma keys_store_release:
  assumes "store_release history k r acc = Inr acc'"
  shows "keys acc' = insert k (keys acc)"
proof (cases history)
  case True
  with assms show ?thesis
    by (auto simp: store_release_def keys_update keys_map_of split: option.splits slot.splits)
next
  case False
  show ?thesis
  proof (cases "map_of acc k")
    case None
    with assms False show ?thesis
      by (auto simp: store_release_def keys_update split: if_splits)
  next
    case (Some v)
    then have "k \<in> keys acc" by (simp add: keys_map_of)
    with assms False Some show ?thesis
      by (auto simp: store_release_def keys_update split: if_splits sum.splits)
  qed
qed

lemma keys_process_release:
  assumes "process_release configured history r acc = Inr acc'"
  shows "keys acc' = insert (artifact_key configured r) (keys acc)"
proof -
  obtain k acc1 where a: "assign_artifact configured history r acc = (k, acc1)"
    by (cases "assign_artifact configured history r acc")
  then have k: "k = artifact_key configured r"
    using assign_artifact_fst[of configured history r acc] by simp
  have "store_release history k r acc1 = Inr acc'"
    using assms a by (simp add: process_release_def)
  then have "keys acc' = insert k (keys acc1)"
    by (rule keys_store_release)
  moreover have "keys acc1 \<union> {k} = insert k (keys acc)"
    using keys_assign_artifact[of configured history r acc] a k by simp
  ultimately show ?thesis using k by auto
qed

lemma keys_process_page:
  assumes "process_page configured history rs acc = (new, Inr acc')"
  shows "keys acc' = keys acc \<union> artifact_key configured ` set new"
  using assms
proof (induction rs arbitrary: acc new)
  case Nil
  then show ?case by simp
next
  case (Cons r rs)
  show ?case
  proof (cases "draft r")
    case True
    with Cons show ?thesis by simp
  next
    case False
    with Cons.prems obtain acc1 where
      1: "process_release configured history r acc = Inr acc1"
      by (auto split: sum.splits)
    note k1 = keys_process_release[OF 1]
    from Cons.prems False 1 consider
      (stop) "new = [r]" "acc' = acc1"
      | (go) new1 where "new = r # new1" "process_page configured history rs acc1 = (new1, Inr acc')"
      by (auto split: sum.splits prod.splits if_splits bool.splits)
    then show ?thesis
    proof cases
      case stop
      with k1 show ?thesis by auto
    next
      case go
      with k1 Cons.IH[OF go(2)] show ?thesis by auto
    qed
  qed
qed

lemma keys_init_accumulator: "keys (init_accumulator configured history) = set configured"
proof -
  have "keys (fold (\<lambda>artifact acc. AList.update artifact (init_slot history) acc) configured acc) =
        keys acc \<union> set configured" for acc
    by (induction configured arbitrary: acc) (auto simp: keys_update)
  then show ?thesis
    by (simp add: init_accumulator_def keys_def)
qed

lemma artifact_key_image:
  "artifact_key configured ` set rs \<union> set configured =
   set configured \<union> tag_derived_keys configured rs \<union> default_keys configured rs"
proof -
  have "match_configured configured r \<noteq> [] \<Longrightarrow> match_configured configured r \<in> set configured"
    for r
    using match_configured_cases[of configured r] by auto
  then show ?thesis
    by (auto simp: artifact_key_cases tag_derived_keys_def default_keys_def image_iff)
qed

section \<open>The classifier\<close>

text \<open>
  Claim C5, as the code has it. The key assigned by the configured match is the first
  \<^emph>\<open>non-empty\<close> key of the allow-list, in list order, whose lowercase form is a substring of
  the lowercased name, tag or body; empty keys are passed over. When there is such a key it
  is the ArtifactKey, and the dictionary is left as it is (no slot is created). Which of
  the three fields holds the key plays no part.
\<close>

theorem configured_match_first_nonempty:
  assumes "configured_artifacts = earlier @ k # later"
    and "k \<noteq> []" and "key_occurs k r"
    and "\<forall>k' \<in> set earlier. k' = [] \<or> \<not> key_occurs k' r"
  shows "assign_artifact configured_artifacts history r acc = (k, acc)"
proof -
  have "match_configured configured_artifacts r = k"
    using assms
    by (intro match_configured_first[of _ earlier k later]) (auto simp: artifact_matches_iff)
  with assms(2) show ?thesis by (simp add: assign_artifact_def)
qed

theorem configured_match_first_nonempty_witness:
  "assign_artifact ['''', ''Op-Node'', ''op''] False monorepo_release [] = (''Op-Node'', [])"
  using configured_match_first_nonempty[of "['''', ''Op-Node'', ''op'']" "['''']" "''Op-Node''"
      "[''op'']" monorepo_release False "[]"]
  by (simp add: key_occurs_def py_in_iff_sublist[symmetric] string_defs monorepo_release_def)

text \<open>
  Claim C5 as stated fails in two ways. For an allow-list that holds the empty key, the
  default list \<^verbatim>\<open>['']\<close> among them, the empty string is a substring of every field, so the
  claimed rule picks it, yet the first release below is assigned the key taken from its
  tag. And the fields have no priority over the list order: the name of the second release
  holds \<^verbatim>\<open>beta\<close> and its tag holds \<^verbatim>\<open>alpha\<close>, so the claimed rule (name first) picks
  \<^verbatim>\<open>beta\<close>, while the code takes \<^verbatim>\<open>alpha\<close>, the first key of the list found in any field.
\<close>

theorem configured_match_claimed_rule_counterexample:
  "\<not> draft monorepo_release \<and> claimed_key [''''] monorepo_release = Some '''' \<and>
   artifact_key [''''] monorepo_release = ''op-node'' \<and>
   \<not> draft alpha_release \<and> claimed_key [''alpha'', ''beta''] alpha_release = Some ''beta'' \<and>
   artifact_key [''alpha'', ''beta''] alpha_release = ''alpha''"
  by (simp add: claimed_key_def py_in_iff_sublist[symmetric] string_defs monorepo_release_def
      alpha_release_def artifact_key_def assign_artifact_def artifact_matches_def keys_def
      init_slot_def Let_def)

text \<open>
  Claim C6, as the code has it. When no configured key matched the release (in its name,
  tag or body) and the tag contains \<^verbatim>\<open>'/'\<close>, the ArtifactKey is the part of the tag before
  the first \<^verbatim>\<open>'/'\<close>; a key that has no slot yet gets a new slot at the end of the dictionary,
  an empty list in history mode and a pair of absent values otherwise, and a key that has
  a slot leaves the dictionary as it is.
\<close>

theorem tag_fallback_creates_slot:
  assumes "\<forall>k \<in> set configured_artifacts. k = [] \<or> \<not> key_occurs k r"
    and "CHR ''/'' \<in> set (tag_name r)"
  shows "assign_artifact configured_artifacts history r acc =
           (tag_prefix (tag_name r),
            if tag_prefix (tag_name r) \<in> keys acc then acc
            else acc @ [(tag_prefix (tag_name r),
                         if history then History [] else Latest None None)])"
proof -
  have "match_configured configured_artifacts r = []"
    using assms(1) by (simp add: match_configured_none artifact_matches_iff)
  then show ?thesis
    using assms(2)
    by (simp add: assign_artifact_def py_in_slash hd_py_split tag_prefix_def update_fresh
        init_slot_def Let_def)
qed

theorem tag_fallback_creates_slot_witness:
  "assign_artifact [''geth''] True monorepo_release [(''geth'', History [])] =
     (''op-node'', [(''geth'', History []), (''op-node'', History [])])"
  using tag_fallback_creates_slot[of "[''geth'']" monorepo_release True "[(''geth'', History [])]"]
  by (simp add: key_occurs_def py_in_iff_sublist[symmetric] string_defs tag_prefix_def keys_def
      monorepo_release_def)

text \<open>
  Claim C6 as stated fails: it asks only that the \<^emph>\<open>tag\<close> match no configured key. The tag
  of the release below matches no key and contains \<^verbatim>\<open>'/'\<close>, but its name contains the
  configured key, which therefore is the ArtifactKey instead of the tag's prefix.
\<close>

theorem tag_fallback_name_match_counterexample:
  "tag_matches_no_key [''geth''] tools_release \<and> CHR ''/'' \<in> set (tag_name tools_release) \<and>
   tag_prefix (tag_name tools_release) = ''tools'' \<and>
   artifact_key [''geth''] tools_release = ''geth''"
  by (simp add: py_in_iff_sublist[symmetric] string_defs artifact_key_def assign_artifact_def
      artifact_matches_def tag_prefix_def tools_release_def)

section \<open>The writer\<close>

text \<open>
  Claim C7. The writer's target is \<^verbatim>\<open>root/owner/repo/[artifact/]{stem}.md\<close>, built with the
  path join: for a non-empty key and a tag \<^verbatim>\<open>artifact/rest\<close> the stem is \<^verbatim>\<open>rest\<close> (the prefix
  is removed once, whatever \<^verbatim>\<open>rest\<close> begins with); for a non-empty key and a tag without
  that prefix, and for the empty key, the stem is the tag itself and the empty key adds no
  directory. A release that is written is written at that path.
\<close>

theorem filepath_strips_prefix_once:
  "(artifact \<noteq> [] \<longrightarrow>
      filepath root owner repo artifact (artifact @ ''/'' @ rest) =
        joinpath (joinpath (joinpath (joinpath (Path root) owner) repo) artifact) (rest @ ''.md'')) \<and>
   (artifact \<noteq> [] \<and> \<not> prefix (artifact @ ''/'') t \<longrightarrow>
      filepath root owner repo artifact t =
        joinpath (joinpath (joinpath (joinpath (Path root) owner) repo) artifact) (t @ ''.md'')) \<and>
   (artifact = [] \<longrightarrow>
      filepath root owner repo artifact t =
        joinpath (joinpath (joinpath (Path root) owner) repo) (t @ ''.md'')) \<and>
   (save_release_notes root fs owner repo artifact (Some rel) = (fs', Inr True) \<longrightarrow>
      fs' (filepath root owner repo artifact (tag rel)) =
        Some (File (content owner repo artifact rel)))"
proof (intro conjI impI)
  assume "artifact \<noteq> []"
  then show "filepath root owner repo artifact (artifact @ ''/'' @ rest) =
        joinpath (joinpath (joinpath (joinpath (Path root) owner) repo) artifact) (rest @ ''.md'')"
    by (simp add: filepath_def base_path_def clean_tag_strip)
next
  assume "artifact \<noteq> [] \<and> \<not> prefix (artifact @ ''/'') t"
  then show "filepath root owner repo artifact t =
        joinpath (joinpath (joinpath (joinpath (Path root) owner) repo) artifact) (t @ ''.md'')"
    by (simp add: filepath_def base_path_def clean_tag_verbatim)
next
  assume "artifact = []"
  then show "filepath root owner repo artifact t =
        joinpath (joinpath (joinpath (Path root) owner) repo) (t @ ''.md'')"
    by (simp add: filepath_def base_path_def clean_tag_verbatim)
next
  assume "save_release_notes root fs owner repo artifact (Some rel) = (fs', Inr True)"
  then show "fs' (filepath root owner repo artifact (tag rel)) =
        Some (File (content owner repo artifact rel))"
    by (rule save_written)
qed

theorem filepath_strips_prefix_once_witness:
  "filepath ''artifacts'' ''owner'' ''repo'' ''op-node'' ''op-node/op-node/v1.0.0'' =
     ([], [''artifacts'', ''owner'', ''repo'', ''op-node'', ''op-node'', ''v1.0.0.md'']) \<and>
   filepath ''artifacts'' ''owner'' ''repo'' ''op-node'' ''v1.0.0'' =
     ([], [''artifacts'', ''owner'', ''repo'', ''op-node'', ''v1.0.0.md'']) \<and>
   filepath ''artifacts'' ''owner'' ''repo'' [] ''v1.0.0'' =
     ([], [''artifacts'', ''owner'', ''repo'', ''v1.0.0.md'']) \<and>
   fst (save_release_notes ''artifacts'' Map.empty ''owner'' ''repo'' ''op-node'' (Some monorepo_notes))
     ([], [''artifacts'', ''owner'', ''repo'', ''op-node'', ''v1.0.0.md'']) =
     Some (File (content ''owner'' ''repo'' ''op-node'' monorepo_notes))"
proof -
  have w: "save_release_notes ''artifacts'' Map.empty ''owner'' ''repo'' ''op-node'' (Some monorepo_notes) =
    (fst (save_release_notes ''artifacts'' Map.empty ''owner'' ''repo'' ''op-node''
       (Some monorepo_notes)), Inr True)"
    by (simp add: path_defs fs_defs monorepo_notes_def upt_rec)
  have t: "tag monorepo_notes = ''op-node/v1.0.0''"
    by (simp add: monorepo_notes_def)
  have f1: "filepath ''artifacts'' ''owner'' ''repo'' ''op-node'' ''op-node/op-node/v1.0.0'' =
     ([], [''artifacts'', ''owner'', ''repo'', ''op-node'', ''op-node'', ''v1.0.0.md''])"
    using filepath_strips_prefix_once[of "''op-node''" "''artifacts''" "''owner''" "''repo''"
        "''op-node/v1.0.0''"]
    by (simp add: joinpath_def Path_def seg_root_def seg_parts_def startswith_def)
  have f2: "filepath ''artifacts'' ''owner'' ''repo'' ''op-node'' ''v1.0.0'' =
     ([], [''artifacts'', ''owner'', ''repo'', ''op-node'', ''v1.0.0.md''])"
    using filepath_strips_prefix_once[of "''op-node''" "''artifacts''" "''owner''" "''repo''"
        _ "''v1.0.0''"]
    by (simp add: joinpath_def Path_def seg_root_def seg_parts_def startswith_def)
  have f3: "filepath ''artifacts'' ''owner'' ''repo'' [] ''v1.0.0'' =
     ([], [''artifacts'', ''owner'', ''repo'', ''v1.0.0.md''])"
    using filepath_strips_prefix_once[of "[]" "''artifacts''" "''owner''" "''repo''" _ "''v1.0.0''"]
    by (simp add: joinpath_def Path_def seg_root_def seg_parts_def startswith_def)
  have f4: "fst (save_release_notes ''artifacts'' Map.empty ''owner'' ''repo'' ''op-node''
       (Some monorepo_notes))
     (filepath ''artifacts'' ''owner'' ''repo'' ''op-node'' ''op-node/v1.0.0'') =
     Some (File (content ''owner'' ''repo'' ''op-node'' monorepo_notes))"
    using filepath_strips_prefix_once[of "''op-node''" "''artifacts''" "''owner''" "''repo''" _ _
        Map.empty monorepo_notes] w t
    by simp
  have f5: "filepath ''artifacts'' ''owner'' ''repo'' ''op-node'' ''op-node/v1.0.0'' =
     ([], [''artifacts'', ''owner'', ''repo'', ''op-node'', ''v1.0.0.md''])"
    by (simp add: path_defs)
  show ?thesis
    using f1 f2 f3 f4 f5 by simp
qed

text \<open>
  Claim C8. When a file exists at the target path, the writer returns \<^verbatim>\<open>False\<close> and the
  files of the output tree, with their contents, are the same before and after (the
  directory creation that precedes the test can add directories, never a file). And a
  second run of the writer after a successful one returns \<^verbatim>\<open>False\<close> and leaves the
  whole tree as it is.
\<close>

theorem existing_file_not_overwritten:
  "(fs (filepath root owner repo artifact (tag rel)) = Some (File c) \<longrightarrow>
      snd (save_release_notes root fs owner repo artifact (Some rel)) = Inr False \<and>
      (\<forall>p c'. fst (save_release_notes root fs owner repo artifact (Some rel)) p = Some (File c')
          \<longleftrightarrow> fs p = Some (File c'))) \<and>
   (save_release_notes root fs owner repo artifact (Some rel) = (fs2, Inr True) \<longrightarrow>
      save_release_notes root fs2 owner repo artifact (Some rel) = (fs2, Inr False))"
proof (intro conjI impI allI)
  assume "fs (filepath root owner repo artifact (tag rel)) = Some (File c)"
  then show "snd (save_release_notes root fs owner repo artifact (Some rel)) = Inr False"
    by (rule save_existing(1))
next
  fix p c'
  assume "fs (filepath root owner repo artifact (tag rel)) = Some (File c)"
  then show "fst (save_release_notes root fs owner repo artifact (Some rel)) p = Some (File c')
          \<longleftrightarrow> fs p = Some (File c')"
    by (rule save_existing(2))
next
  assume "save_release_notes root fs owner repo artifact (Some rel) = (fs2, Inr True)"
  then show "save_release_notes root fs2 owner repo artifact (Some rel) = (fs2, Inr False)"
    by (rule save_again)
qed

theorem existing_file_not_overwritten_witness:
  "snd (save_release_notes ''artifacts'' existing_tree ''owner'' ''repo'' ''op-node''
          (Some monorepo_notes)) = Inr False \<and>
   fst (save_release_notes ''artifacts'' existing_tree ''owner'' ''repo'' ''op-node''
          (Some monorepo_notes))
     ([], [''artifacts'', ''owner'', ''repo'', ''op-node'', ''v1.0.0.md'']) = Some (File ''kept'') \<and>
   save_release_notes ''artifacts''
     (fst (save_release_notes ''artifacts'' Map.empty ''owner'' ''repo'' ''op-node''
        (Some monorepo_notes)))
     ''owner'' ''repo'' ''op-node'' (Some monorepo_notes) =
     (fst (save_release_notes ''artifacts'' Map.empty ''owner'' ''repo'' ''op-node''
        (Some monorepo_notes)), Inr False)"
proof -
  have p: "filepath ''artifacts'' ''owner'' ''repo'' ''op-node'' (tag monorepo_notes) =
      ([], [''artifacts'', ''owner'', ''repo'', ''op-node'', ''v1.0.0.md''])"
    by (simp add: path_defs monorepo_notes_def)
  have e: "existing_tree (filepath ''artifacts'' ''owner'' ''repo'' ''op-node'' (tag monorepo_notes)) =
      Some (File ''kept'')"
    by (simp add: p existing_tree_def)
  have w: "save_release_notes ''artifacts'' Map.empty ''owner'' ''repo'' ''op-node'' (Some monorepo_notes) =
    (fst (save_release_notes ''artifacts'' Map.empty ''owner'' ''repo'' ''op-node''
       (Some monorepo_notes)), Inr True)"
    by (simp add: path_defs fs_defs monorepo_notes_def upt_rec)
  show ?thesis
    using existing_file_not_overwritten[of existing_tree "''artifacts''" "''owner''" "''repo''" "''op-node''"
        monorepo_notes "''kept''"] e
      existing_file_not_overwritten[of Map.empty "''artifacts''" "''owner''" "''repo''" "''op-node''" monorepo_notes _
        "fst (save_release_notes ''artifacts'' Map.empty ''owner'' ''repo'' ''op-node''
          (Some monorepo_notes))"] w
    by (simp add: p)
qed

section \<open>The paging loop\<close>

text \<open>
  Claim C1 does not hold of the code. The first page below has 100 releases; after its
  second release every known key has both slots filled, the stop test holds and the loop
  over the page is left. That \<^verbatim>\<open>break\<close> leaves only the inner loop: the page was full, so
  page 2 is requested all the same. With an empty second page the fetch returns with
  \<^verbatim>\<open>page = 2\<close>; with a second request that fails, the filled accumulator is given up for
  \<^verbatim>\<open>{'': (None, None)}\<close>.
\<close>

theorem stop_condition_full_page_requests_next:
  "process_page [''''] False full_page (init_accumulator [''''] False) =
     ([regular_release, pre_release], Inr both_filled) \<and>
   all_filled both_filled = Inr True \<and>
   fetch_loop 2 full_then_empty [''''] False 1 (init_accumulator [''''] False) [] =
     Some (2, [regular_release, pre_release], Returned Finished both_filled) \<and>
   fetch_loop 2 full_then_failure [''''] False 1 (init_accumulator [''''] False) [] =
     Some (2, [regular_release, pre_release], Returned RequestFailed neutral_result)"
proof -
  have l: "length full_page = 100" by (simp add: full_page_def)
  have n: "full_page \<noteq> []" by (simp add: full_page_def)
  have two: "(2::nat) = Suc (Suc 0)" by simp
  show ?thesis
    unfolding two
    by (simp add: full_page_processed l n full_then_empty_def full_then_failure_def ok_response_def per_page_def
        quota_exhausted_def both_filled_def)
qed

text \<open>
  Claim C9 does not hold of the code. Before it returns the accumulator, the rate-limit
  branch reads \<^verbatim>\<open>response.headers['X-RateLimit-Reset']\<close> and converts it with
  \<^verbatim>\<open>datetime.fromtimestamp\<close> to print the reset time. A response with status 403 and a
  remaining quota of zero that carries no reset header raises \<^verbatim>\<open>KeyError\<close>, and one whose
  reset time lies beyond the year 9999 raises \<^verbatim>\<open>ValueError\<close>; neither is a
  \<^verbatim>\<open>RequestException\<close>, so the fetch ends with the exception instead of the accumulator.
  With a reset header that converts, the accumulator is returned as the claim says.
\<close>

theorem rate_limit_reset_header_raises:
  "fetch_loop 1 limit_without_reset [''op-node''] False 1 (init_accumulator [''op-node''] False) [] =
     Some (1, [], Raised KeyError) \<and>
   fetch_loop 1 limit_far_reset [''op-node''] False 1 (init_accumulator [''op-node''] False) [] =
     Some (1, [], Raised ValueError) \<and>
   fetch_loop 1 limit_with_reset [''op-node''] False 1 (init_accumulator [''op-node''] False) [] =
     Some (1, [], Returned RateLimited [(''op-node'', Latest None None)])"
  by (simp add: limit_without_reset_def limit_far_reset_def limit_with_reset_def
      fromtimestamp_def init_accumulator_def init_slot_def)

text \<open>
  Claim C10. When the first page is an empty list (and the response passes the status
  checks) the fetch returns \<^verbatim>\<open>{'': (None, None)}\<close>; when the request for any page raises,
  or its status is an error status that is not the rate-limit case, the loop is left
  through the \<^verbatim>\<open>except\<close> clause with the same value; both whatever the mode, the
  configured keys and the dictionary accumulated so far. In general the result of the
  \<^verbatim>\<open>'No releases found'\<close> return and of the \<^verbatim>\<open>except\<close> return is that pair under the empty
  key, while in history mode the two other returns give a list under every key.
\<close>

theorem neutral_result_on_error_paths:
  "(session self repo 1 = Responds resp \<and> (status_code resp < 400 \<or> 600 \<le> status_code resp) \<and>
    json resp = [] \<longrightarrow>
      get_latest_releases (Suc fuel) self repo =
        Some (1, [], Returned NoReleases [([], Latest None None)])) \<and>
   (get page = Raises \<or>
    (get page = Responds resp' \<and> 400 \<le> status_code resp' \<and> status_code resp' < 600 \<and>
     \<not> (status_code resp' = 403 \<and> ratelimit_remaining resp' = Some 0)) \<longrightarrow>
      fetch_loop (Suc fuel) get configured history page acc stored =
        Some (page, stored, Returned RequestFailed [([], Latest None None)])) \<and>
   (get_latest_releases fuel self repo = Some (page', stored', Returned ep acc') \<longrightarrow>
      (if ep = NoReleases \<or> ep = RequestFailed then acc' = [([], Latest None None)]
       else fetch_history self \<longrightarrow> (\<forall>(k, v) \<in> set acc'. \<exists>xs. v = History xs)))"
proof (intro conjI impI)
  assume "session self repo 1 = Responds resp \<and>
    (status_code resp < 400 \<or> 600 \<le> status_code resp) \<and> json resp = []"
  then show "get_latest_releases (Suc fuel) self repo =
        Some (1, [], Returned NoReleases [([], Latest None None)])"
    by (auto simp: get_latest_releases_def neutral_result_def)
next
  assume "get page = Raises \<or>
    (get page = Responds resp' \<and> 400 \<le> status_code resp' \<and> status_code resp' < 600 \<and>
     \<not> (status_code resp' = 403 \<and> ratelimit_remaining resp' = Some 0))"
  then show "fetch_loop (Suc fuel) get configured history page acc stored =
        Some (page, stored, Returned RequestFailed [([], Latest None None)])"
    by (auto simp: neutral_result_def)
next
  assume run: "get_latest_releases fuel self repo = Some (page', stored', Returned ep acc')"
  show "if ep = NoReleases \<or> ep = RequestFailed then acc' = [([], Latest None None)]
       else fetch_history self \<longrightarrow> (\<forall>(k, v) \<in> set acc'. \<exists>xs. v = History xs)"
  proof (cases "ep = NoReleases \<or> ep = RequestFailed")
    case True
    with run fetch_loop_neutral show ?thesis
      unfolding get_latest_releases_def Let_def neutral_result_def by metis
  next
    case False
    then have ep: "ep = Finished \<or> ep = RateLimited" by (cases ep) auto
    have "all_history acc'" if h: "fetch_history self"
    proof (rule fetch_loop_invariant[where I = "\<lambda>acc stored. all_history acc", OF _ ep])
      show "fetch_loop fuel (session self repo) (monorepo_artifacts self repo) True 1
              (init_accumulator (monorepo_artifacts self repo) True) [] =
            Some (page', stored', Returned ep acc')"
        using run h by (simp add: get_latest_releases_def Let_def)
      show "all_history (init_accumulator (monorepo_artifacts self repo) True)"
        by (rule all_history_init)
    next
      fix acc stored rs new acc1
      assume "all_history acc"
        and "process_page (monorepo_artifacts self repo) True rs acc = (new, Inr acc1)"
      then show "all_history acc1" by (rule process_page_all_history[rotated])
    qed
    with False show ?thesis by (simp add: all_history_def)
  qed
qed

theorem neutral_result_on_error_paths_witness:
  "get_latest_releases 1 (fetcher_of empty_server True [''op-node'']) ''test/repo'' =
     Some (1, [], Returned NoReleases [([], Latest None None)]) \<and>
   fetch_loop 1 failing_server [''op-node''] True 3 [(''op-node'', History [monorepo_notes])] [] =
     Some (3, [], Returned RequestFailed [([], Latest None None)]) \<and>
   get_latest_releases 1 (fetcher_of test_server True ['''']) ''test/repo'' =
     Some (1, [regular_release, monorepo_release, pre_release],
       Returned Finished
         [([], History [release_info regular_release, release_info pre_release]),
          (''op-node'', History [release_info monorepo_release])])"
proof -
  have run: "get_latest_releases 1 (fetcher_of test_server True ['''']) ''test/repo'' =
     Some (1, [regular_release, monorepo_release, pre_release],
       Returned Finished
         [([], History [release_info regular_release, release_info pre_release]),
          (''op-node'', History [release_info monorepo_release])])"
    by (simp add: get_latest_releases_def fetcher_of_def test_server_def ok_response_def
        init_accumulator_def per_page_def classify_defs string_defs release_defs)
  show ?thesis
    using neutral_result_on_error_paths[where self = "fetcher_of empty_server True [''op-node'']" and repo = "''test/repo''"
        and resp = "ok_response []" and fuel = 0 and get = failing_server and page = 3
        and configured = "[''op-node'']" and history = True
        and acc = "[(''op-node'', History [monorepo_notes])]" and stored = "[]"]
      neutral_result_on_error_paths[where self = "fetcher_of test_server True ['''']" and repo = "''test/repo''"
        and fuel = 1 and page' = 1 and stored' = "[regular_release, monorepo_release, pre_release]"
        and ep = Finished
        and acc' = "[([], History [release_info regular_release, release_info pre_release]),
          (''op-node'', History [release_info monorepo_release])]"]
      run
    by (simp add: fetcher_of_def empty_server_def failing_server_def ok_response_def)
qed

section \<open>The batch\<close>

text \<open>
  Claim C3 does not hold of the code. In history mode, a repository whose listing request
  fails makes \<^verbatim>\<open>get_latest_releases\<close> return \<^verbatim>\<open>{'': (None, None)}\<close>; the history loop of
  \<^verbatim>\<open>process_repository\<close> iterates that pair and hands \<^verbatim>\<open>None\<close> to the writer, whose
  \<^verbatim>\<open>except\<close> clause raises \<^verbatim>\<open>AttributeError\<close> while formatting \<^verbatim>\<open>release.tag\<close>. Nothing
  catches it: the run ends in the first repository and the second one is never processed.
  In latest-only mode the same input is processed to the end. Also in history mode, a
  release that neither matches a configured key nor has a \<^verbatim>\<open>'/'\<close> in its tag ends the run
  with \<^verbatim>\<open>KeyError\<close> when the empty key is not configured.
\<close>

theorem history_error_result_aborts_batch:
  "map_option snd (main 1 (fetcher_of failing_server True ['''']) [''a/b'', ''c/d''] Map.empty) =
     Some ([], Some AttributeError) \<and>
   map_option snd (main 1 (fetcher_of failing_server False ['''']) [''a/b'', ''c/d''] Map.empty) =
     Some ([''a/b'', ''c/d''], None) \<and>
   map_option snd (main 1 (fetcher_of test_server True [''op-node'']) [''a/b'', ''c/d''] Map.empty) =
     Some ([], Some KeyError)"
  by (simp add: fetcher_of_def failing_server_def test_server_def ok_response_def
      process_repository_def get_latest_releases_def strip_def is_space_def
      init_accumulator_def per_page_def classify_defs string_defs release_defs
      neutral_result_def releases_to_save_def print_summary_def path_defs fs_defs upt_rec)

section \<open>The returned dictionary\<close>

text \<open>
  Claim C2, as the code has it. When the fetch returns its dictionary (after the loop or on
  the rate-limit return), the keys are exactly the configured allow-list, the keys taken
  from the tags of the releases stored, and the empty key when one of the releases stored
  matched no configured key and has no \<^verbatim>\<open>'/'\<close> in its tag.
\<close>

theorem returned_keys_exact:
  assumes "get_latest_releases fuel self repo = Some (page, stored, Returned ep acc)"
    and "ep = Finished \<or> ep = RateLimited"
  shows "keys acc =
           set (monorepo_artifacts self repo) \<union>
           tag_derived_keys (monorepo_artifacts self repo) stored \<union>
           default_keys (monorepo_artifacts self repo) stored"
proof -
  let ?cfg = "monorepo_artifacts self repo"
  have "keys acc = set ?cfg \<union> artifact_key ?cfg ` set stored"
  proof (rule fetch_loop_invariant[where
        I = "\<lambda>acc stored. keys acc = set ?cfg \<union> artifact_key ?cfg ` set stored", OF _ assms(2)])
    show "fetch_loop fuel (session self repo) ?cfg (fetch_history self) 1
            (init_accumulator ?cfg (fetch_history self)) [] =
          Some (page, stored, Returned ep acc)"
      using assms(1) by (simp add: get_latest_releases_def Let_def)
    show "keys (init_accumulator ?cfg (fetch_history self)) = set ?cfg \<union> artifact_key ?cfg ` set []"
      by (simp add: keys_init_accumulator)
  next
    fix acc stored rs new acc1
    assume "keys acc = set ?cfg \<union> artifact_key ?cfg ` set stored"
      and "process_page ?cfg (fetch_history self) rs acc = (new, Inr acc1)"
    then show "keys acc1 = set ?cfg \<union> artifact_key ?cfg ` set (stored @ new)"
      using keys_process_page by auto
  qed
  then show ?thesis
    using artifact_key_image[of ?cfg stored] by auto
qed

theorem returned_keys_exact_witness:
  "keys [(''op-node'', Latest (Some (release_info monorepo_release)) None),
         ([], Latest (Some (release_info regular_release)) (Some (release_info pre_release)))] =
     set [''op-node''] \<union>
     tag_derived_keys [''op-node''] [regular_release, monorepo_release, pre_release] \<union>
     default_keys [''op-node''] [regular_release, monorepo_release, pre_release]"
proof -
  have run: "get_latest_releases 1 (fetcher_of test_server False [''op-node'']) ''test/repo'' =
     Some (1, [regular_release, monorepo_release, pre_release],
       Returned Finished
         [(''op-node'', Latest (Some (release_info monorepo_release)) None),
          ([], Latest (Some (release_info regular_release)) (Some (release_info pre_release)))])"
    by (simp add: get_latest_releases_def fetcher_of_def test_server_def ok_response_def
        init_accumulator_def per_page_def classify_defs string_defs release_defs)
  show ?thesis
    using returned_keys_exact[OF run] by (simp add: fetcher_of_def)
qed

text \<open>
  Claim C2 as stated fails in latest-only mode: with the allow-list \<^verbatim>\<open>['op-node']\<close> and the
  releases of the test data, the result has the empty key, which is neither configured nor
  derived from a tag (\<^verbatim>\<open>.get(matched_artifact, (None, None))\<close> and the assignment that
  follows create it).
\<close>

theorem returned_keys_extra_empty_key_counterexample:
  "get_latest_releases 1 (fetcher_of test_server False [''op-node'']) ''test/repo'' =
     Some (1, [regular_release, monorepo_release, pre_release],
       Returned Finished
         [(''op-node'', Latest (Some (release_info monorepo_release)) None),
          ([], Latest (Some (release_info regular_release)) (Some (release_info pre_release)))]) \<and>
   keys [(''op-node'', Latest (Some (release_info monorepo_release)) None),
         ([], Latest (Some (release_info regular_release)) (Some (release_info pre_release)))] =
     {''op-node'', []} \<and>
   set [''op-node''] \<union>
     tag_derived_keys [''op-node''] [regular_release, monorepo_release, pre_release] = {''op-node''}"
  by (simp add: get_latest_releases_def fetcher_of_def test_server_def ok_response_def
      init_accumulator_def per_page_def classify_defs string_defs release_defs
      tag_derived_keys_def insert_commute)

text \<open>
  Claim C4 does not hold of the code. The first page below is full; after its second
  release every known key is filled and the loop over the page is left, so the 98 releases
  \<^verbatim>\<open>op-node/v1.10.2\<close> that follow on that page are never classified. The page was full, so
  page 2 is requested (the defect of claim C1), and its release \<^verbatim>\<open>op-node/v1.9.0\<close> creates
  the slot of \<^verbatim>\<open>op-node\<close> and fills it. The stable slot of \<^verbatim>\<open>op-node\<close> in the result is
  therefore not the first stable release of that key in the order of arrival, which is
  \<^verbatim>\<open>op-node/v1.10.2\<close>.
\<close>

theorem skipped_release_is_not_first_seen:
  "get_latest_releases 2 (fetcher_of full_then_older False ['''']) ''test/repo'' =
     Some (2, [regular_release, pre_release, older_monorepo_release],
       Returned Finished
         [([], Latest (Some (release_info regular_release)) (Some (release_info pre_release))),
          (''op-node'', Latest (Some (release_info older_monorepo_release)) None)]) \<and>
   stable_of
     [([], Latest (Some (release_info regular_release)) (Some (release_info pre_release))),
      (''op-node'', Latest (Some (release_info older_monorepo_release)) None)] ''op-node'' =
     Some (release_info older_monorepo_release) \<and>
   first_arrived [''''] ''op-node'' False (full_page @ [older_monorepo_release]) =
     Some (release_info monorepo_release) \<and>
   release_info older_monorepo_release \<noteq> release_info monorepo_release"
proof -
  have l: "length full_page = 100" by (simp add: full_page_def)
  have n: "full_page \<noteq> []" by (simp add: full_page_def)
  have two: "(2::nat) = Suc (Suc 0)" by simp
  have run: "get_latest_releases 2 (fetcher_of full_then_older False ['''']) ''test/repo'' =
     Some (2, [regular_release, pre_release, older_monorepo_release],
       Returned Finished
         [([], Latest (Some (release_info regular_release)) (Some (release_info pre_release))),
          (''op-node'', Latest (Some (release_info older_monorepo_release)) None)])"
    unfolding two get_latest_releases_def
    by (simp add: fetcher_of_def full_page_processed l n full_then_older_def ok_response_def
        per_page_def quota_exhausted_def both_filled_def classify_defs string_defs
        older_monorepo_release_def)
  have page: "full_page = regular_release # pre_release # monorepo_release # replicate 97 monorepo_release"
    by (simp add: full_page_def numeral_eq_Suc)
  have first: "first_arrived [''''] ''op-node'' False (full_page @ [older_monorepo_release]) =
     Some (release_info monorepo_release)"
    unfolding page
    by (simp add: first_arrived_def artifact_key_def classify_defs string_defs release_defs)
  have differ: "release_info older_monorepo_release \<noteq> release_info monorepo_release"
    by (simp add: release_info_def older_monorepo_release_def monorepo_release_def)
  show ?thesis
    using run first differ by (simp add: stable_of_def)
qed

end
